theory Spec2Isabelle
  imports Main
begin

section \<open>Query parameters\<close>

text \<open>
  The reducers of \<^verbatim>\<open>src/App.js\<close> write to the page's query string through two
  helpers imported from \<^verbatim>\<open>./utils\<close>. A reducer of the model returns, next to its
  result, the list of helper calls it made, in the order it made them. The argument of
  \<open>SetQueryParam\<close> is \<open>None\<close> where the source passes no second argument
  (\<^verbatim>\<open>setQueryParam(m.id)\<close>).
\<close>

datatype call = SetQueryParam string "string option" | UnsetQueryParam string

fun param_of :: "call \<Rightarrow> string" where
  "param_of (SetQueryParam name value) = name"
| "param_of (UnsetQueryParam name) = name"

type_synonym query = "string \<rightharpoonup> string"

text \<open>
  Modelled from the spec: \<^verbatim>\<open>unsetQueryParam\<close> of \<^verbatim>\<open>./utils\<close>, which is not among the
  sources. Section 4.1: it removes the parameter entirely if present, and is a no-op if
  the parameter is absent.
\<close>

definition unsetParam :: "string \<Rightarrow> query \<Rightarrow> query" where
  "unsetParam name q = q(name := None)"

text \<open>
  Modelled from the spec: \<^verbatim>\<open>setQueryParam\<close> of \<^verbatim>\<open>./utils\<close>, which is not among the
  sources. Section 4.1: it sets or replaces the parameter, and with an empty value it is
  equivalent to \<open>unsetParam\<close>. Section 4.3: called with no value, it sets the parameter
  as a presence-only flag (section 6: a parameter with an empty value).
\<close>

definition setParam :: "string \<Rightarrow> string option \<Rightarrow> query \<Rightarrow> query" where
  "setParam name value q =
     (case value of
        None \<Rightarrow> q(name \<mapsto> [])
      | Some v \<Rightarrow> if v = [] then unsetParam name q else q(name \<mapsto> v))"

fun perform :: "call \<Rightarrow> query \<Rightarrow> query" where
  "perform (SetQueryParam name value) q = setParam name value q"
| "perform (UnsetQueryParam name) q = unsetParam name q"

fun run :: "call list \<Rightarrow> query \<Rightarrow> query" where
  "run [] q = q"
| "run (c # cs) q = run cs (perform c q)"

section \<open>JavaScript values and string helpers\<close>

text \<open>
  A component of a hidden-event key is a string or a number; \<^verbatim>\<open>Array.prototype.join\<close>
  and \<^verbatim>\<open>+\<close> with a string turn a number into its decimal numeral. The numbers of the
  keys and of the triples the reducers store are natural numbers (occurrence numbers;
  a double holds every integer up to \<open>2 ^ 53\<close> exactly).
\<close>

datatype atom = Str string | Num nat

definition digit_char :: "nat \<Rightarrow> char" where
  "digit_char d = ''0123456789'' ! d"

fun toDecimal :: "nat \<Rightarrow> string" where
  "toDecimal n = (if n < 10 then [digit_char n] else toDecimal (n div 10) @ [digit_char (n mod 10)])"

declare toDecimal.simps [simp del]

fun toString :: "atom \<Rightarrow> string" where
  "toString (Str s) = s"
| "toString (Num n) = toDecimal n"

text \<open>\<^verbatim>\<open>xs.join(sep)\<close> on an array of strings.\<close>

fun join :: "string \<Rightarrow> string list \<Rightarrow> string" where
  "join sep [] = []"
| "join sep [x] = x"
| "join sep (x # y # ys) = x @ sep @ join sep (y # ys)"

section \<open>Reducers\<close>

datatype error = Error | TypeError

text \<open>
  An action as the application dispatches it: \<^verbatim>\<open>{ type, values }\<close>. The hidden-events
  reducer does not read the values of a reset.
\<close>

record 'v action =
  type :: string
  values' :: 'v

text \<open>
  \<^verbatim>\<open>useReducer\<close> keeps the stored value and replaces it by what the reducer returns.
  A reducer that throws returns nothing, so the stored value stays as it was; the calls
  it made before are made all the same. (The reducers of the source build new arrays
  with spread and \<^verbatim>\<open>filter\<close>, they never change the stored array in place.)
\<close>

definition dispatch ::
  "('s \<Rightarrow> 'a \<Rightarrow> (error + 's) \<times> call list) \<Rightarrow> 'a \<Rightarrow> 's \<times> query \<Rightarrow> 's \<times> query" where
  "dispatch reducer a sq =
     (case reducer (fst sq) a of
        (Inr s', cs) \<Rightarrow> (s', run cs (snd sq))
      | (Inl e, cs) \<Rightarrow> (fst sq, run cs (snd sq)))"

subsection \<open>Specified occurrences (lines 119 to 133)\<close>

type_synonym occurrence = "string \<times> string \<times> nat"

definition changeOccurrences ::
  "occurrence list \<Rightarrow> occurrence action \<Rightarrow> (error + occurrence list) \<times> call list" where
  "changeOccurrences state a =
     (case values' a of (module, groupId, occurrence) \<Rightarrow>
        if type a = ''select'' then
          (Inr (state @ [values' a]),
           [SetQueryParam module (Some (groupId @ toDecimal occurrence))])
        else if type a = ''reset'' then
          (Inr (filter (\<lambda>(m, g, oc). \<not> (m = module \<and> g = groupId \<and> oc = occurrence)) state),
           [SetQueryParam module (Some [])])
        else (Inl Error, []))"

subsection \<open>Hidden events (lines 137 to 153)\<close>

type_synonym key = "atom list"

definition changeHidden ::
  "key list \<Rightarrow> key action \<Rightarrow> (error + key list) \<times> call list" where
  "changeHidden state a =
     (if type a = ''reset'' then (Inr [], [UnsetQueryParam ''hide''])
      else if type a = ''hide'' then
        (let hide = join '','' (map (\<lambda>x. join ''_'' (map toString x)) state) in
           (Inr (state @ [values' a]),
            [if length hide > 0 then SetQueryParam ''hide'' (Some hide)
             else UnsetQueryParam ''hide'']))
      else (Inl Error, []))"

subsection \<open>Selected modules (lines 83 to 100)\<close>

text \<open>
  The selected modules are an array of objects. \<^verbatim>\<open>Array.prototype.includes\<close> compares
  objects by reference, so the model keeps the references in the list and reads a
  module's \<^verbatim>\<open>id\<close> field through the heap \<open>ids\<close>.
\<close>

type_synonym ref = nat

definition includesRef :: "ref list \<Rightarrow> ref \<Rightarrow> bool" where
  "includesRef xs m = (m \<in> set xs)"

definition selectedModulesReducer ::
  "(ref \<Rightarrow> string) \<Rightarrow> ref list \<Rightarrow> ref list \<Rightarrow> ref list \<times> call list" where
  "selectedModulesReducer ids state updatedModules =
     (updatedModules,
      concat (map (\<lambda>m. if \<not> includesRef updatedModules m then [UnsetQueryParam (ids m)] else []) state) @
      concat (map (\<lambda>m. if \<not> includesRef state m then [SetQueryParam (ids m) None] else []) updatedModules))"

section \<open>Occurrence specifications (lines 108 to 117)\<close>

definition isDigit :: "char \<Rightarrow> bool" where
  "isDigit c = (c \<in> set ''0123456789'')"

text \<open>
  \<^verbatim>\<open>s.split(sep)\<close> for a one-character separator: the pieces between the separators,
  \<open>[[]]\<close> for the empty string.
\<close>

fun splitStr :: "char \<Rightarrow> string \<Rightarrow> string list" where
  "splitStr sep [] = [[]]"
| "splitStr sep (c # cs) =
     (if c = sep then [] # splitStr sep cs
      else (case splitStr sep cs of [] \<Rightarrow> [[c]] | t # ts \<Rightarrow> (c # t) # ts))"













subsection \<open>Tokens read from the end\<close>





section \<open>Module catalogue (lines 78 to 80)\<close>

text \<open>
  A raw module is an object; a field holds a string or some other value, which the
  code only passes on.
\<close>

datatype 'v field = Text string | Other 'v

type_synonym 'v obj = "string \<rightharpoonup> 'v field"

definition isUpper :: "char \<Rightarrow> bool" where
  "isUpper c = (c \<in> set ''ABCDEFGHIJKLMNOPQRSTUVWXYZ'')"

definition isDigit19 :: "char \<Rightarrow> bool" where
  "isDigit19 c = (c \<in> set ''123456789'')"

text \<open>
  \<^verbatim>\<open>title.replace(/_[A-Z][1-9]/, '')\<close>: the pattern has no \<^verbatim>\<open>g\<close> flag, so the leftmost
  match alone is removed.
\<close>

fun replaceTag :: "string \<Rightarrow> string" where
  "replaceTag (a # b # c # rest) =
     (if a = CHR ''_'' \<and> isUpper b \<and> isDigit19 c then rest else a # replaceTag (b # c # rest))"
| "replaceTag s = s"

text \<open>
  \<^verbatim>\<open>({ classes, id, title, ...module }) => ({ title: ..., ...module })\<close>: the rest object
  has every field but the three named ones. \<^verbatim>\<open>title.replace\<close> is a TypeError when the
  entry has no title or the title is no string.
\<close>

definition processModule :: "'v obj \<Rightarrow> error + 'v obj" where
  "processModule raw =
     (case raw ''title'' of
        Some (Text title) \<Rightarrow>
          Inr ((\<lambda>k. if k \<in> {''classes'', ''id'', ''title''} then None else raw k)
                 (''title'' \<mapsto> Text (replaceTag title)))
      | _ \<Rightarrow> Inl TypeError)"

text \<open>
  The \<^verbatim>\<open>reduce\<close> of line 80 over \<^verbatim>\<open>Object.entries(timetableData)\<close>, the entries in
  iteration order; \<^verbatim>\<open>{ ...acc, [k]: v }\<close> replaces what \<open>acc\<close> has at \<open>k\<close>.
\<close>

fun reduceModules :: "(string \<rightharpoonup> 'v obj) \<Rightarrow> (string \<times> 'v obj) list \<Rightarrow> error + (string \<rightharpoonup> 'v obj)" where
  "reduceModules acc [] = Inr acc"
| "reduceModules acc ((key, module) # rest) =
     (case processModule module of
        Inl e \<Rightarrow> Inl e
      | Inr r \<Rightarrow> reduceModules (acc(hd (splitStr CHR ''_'' key) \<mapsto> r)) rest)"

definition modulesOf :: "(string \<times> 'v obj) list \<Rightarrow> error + (string \<rightharpoonup> 'v obj)" where
  "modulesOf timetableData = reduceModules Map.empty timetableData"

subsection \<open>Where the tag is\<close>

text \<open>
  \<open>tagAt t i\<close>: the pattern \<^verbatim>\<open>_[A-Z][1-9]\<close> matches the three characters of \<open>t\<close> from
  index \<open>i\<close>.
\<close>

definition tagAt :: "string \<Rightarrow> nat \<Rightarrow> bool" where
  "tagAt t i = (i + 2 < length t \<and> t ! i = CHR ''_'' \<and> isUpper (t ! (i + 1)) \<and> isDigit19 (t ! (i + 2)))"

text \<open>
  The title as the specification words it (sections 3 and 4.6): a trailing
  \<^verbatim>\<open>_<LETTER><DIGIT>\<close> tag removed, any letter and any digit, and a title without such
  a trailing tag unchanged.
\<close>

definition isLetter :: "char \<Rightarrow> bool" where
  "isLetter c = (isUpper c \<or> c \<in> set ''abcdefghijklmnopqrstuvwxyz'')"

definition stripTrailingTag :: "string \<Rightarrow> string" where
  "stripTrailingTag t =
     (case rev t of
        d # l # u # rest \<Rightarrow> if u = CHR ''_'' \<and> isLetter l \<and> isDigit d then rev rest else t
      | _ \<Rightarrow> t)"

section \<open>Properties\<close>

lemma toDecimal_nonempty: "toDecimal n \<noteq> []"
  by (subst toDecimal.simps) simp

text \<open>
  C6. An action whose type is none of the reducer's kinds makes the reducer throw:
  it returns the error, has made no call to the query-string helpers, and the stored
  sequence and the query string are as before.
\<close>

theorem unknown_action_throws:
  "(type a \<noteq> ''select'' \<and> type a \<noteq> ''reset'' \<longrightarrow>
      changeOccurrences state a = (Inl Error, []) \<and>
      dispatch changeOccurrences a (state, q) = (state, q)) \<and>
   (type h \<noteq> ''hide'' \<and> type h \<noteq> ''reset'' \<longrightarrow>
      changeHidden hstate h = (Inl Error, []) \<and>
      dispatch changeHidden h (hstate, q) = (hstate, q))"
  by (auto simp: changeOccurrences_def changeHidden_def dispatch_def split: prod.splits)

theorem unknown_action_throws_witness:
  "changeOccurrences [(''COMP1130'', ''ComA'', 1)] \<lparr>type = ''toggle'', values' = (''COMP1130'', ''ComA'', 2)\<rparr>
     = (Inl Error, []) \<and>
   dispatch changeOccurrences \<lparr>type = ''toggle'', values' = (''COMP1130'', ''ComA'', 2)\<rparr>
     ([(''COMP1130'', ''ComA'', 1)], [''COMP1130'' \<mapsto> ''ComA1''])
     = ([(''COMP1130'', ''ComA'', 1)], [''COMP1130'' \<mapsto> ''ComA1'']) \<and>
   changeHidden [[Num 1, Num 2]] \<lparr>type = ''show'', values' = [Num 3, Num 4]\<rparr> = (Inl Error, []) \<and>
   dispatch changeHidden \<lparr>type = ''show'', values' = [Num 3, Num 4]\<rparr>
     ([[Num 1, Num 2]], [''COMP1130'' \<mapsto> ''ComA1''])
     = ([[Num 1, Num 2]], [''COMP1130'' \<mapsto> ''ComA1''])"
proof -
  let ?a = "\<lparr>type = ''toggle'', values' = (''COMP1130'', ''ComA'', 2::nat)\<rparr>"
  let ?h = "\<lparr>type = ''show'', values' = [Num 3, Num 4]\<rparr>"
  have a: "type ?a \<noteq> ''select'' \<and> type ?a \<noteq> ''reset''" by simp
  have h: "type ?h \<noteq> ''hide'' \<and> type ?h \<noteq> ''reset''" by simp
  from a h unknown_action_throws
    [of ?a "[(''COMP1130'', ''ComA'', 1)]" "[''COMP1130'' \<mapsto> ''ComA1'']" ?h "[[Num 1, Num 2]]"]
  show ?thesis by blast
qed

text \<open>
  C9. A second reset changes nothing. On the hidden events, the first reset leaves the
  empty sequence and no \<open>hide\<close> parameter, and so does the second. On the specified
  occurrences, the second \<open>reset(m, g, n)\<close> leaves the stored sequence and the whole
  query string, module \<open>m\<close>'s parameter with it, as the first one left them.
\<close>

theorem reset_twice:
  "type r = ''reset'' \<and> type a = ''reset'' \<and> values' a = (m, g, n) \<longrightarrow>
     dispatch changeHidden r (hstate, q) = ([], unsetParam ''hide'' q) \<and>
     snd (dispatch changeHidden r (hstate, q)) ''hide'' = None \<and>
     dispatch changeHidden r (dispatch changeHidden r (hstate, q))
       = dispatch changeHidden r (hstate, q) \<and>
     snd (dispatch changeOccurrences a (state, q)) m = None \<and>
     dispatch changeOccurrences a (dispatch changeOccurrences a (state, q))
       = dispatch changeOccurrences a (state, q)"
  by (auto simp: changeOccurrences_def changeHidden_def dispatch_def setParam_def unsetParam_def)

theorem reset_twice_witness:
  "dispatch changeHidden \<lparr>type = ''reset'', values' = []\<rparr> ([[Num 1, Num 2]], [''hide'' \<mapsto> ''1_2''])
     = ([], unsetParam ''hide'' [''hide'' \<mapsto> ''1_2'']) \<and>
   snd (dispatch changeHidden \<lparr>type = ''reset'', values' = []\<rparr>
     ([[Num 1, Num 2]], [''hide'' \<mapsto> ''1_2''])) ''hide'' = None \<and>
   dispatch changeHidden \<lparr>type = ''reset'', values' = []\<rparr>
     (dispatch changeHidden \<lparr>type = ''reset'', values' = []\<rparr>
        ([[Num 1, Num 2]], [''hide'' \<mapsto> ''1_2'']))
     = dispatch changeHidden \<lparr>type = ''reset'', values' = []\<rparr>
        ([[Num 1, Num 2]], [''hide'' \<mapsto> ''1_2'']) \<and>
   snd (dispatch changeOccurrences \<lparr>type = ''reset'', values' = (''COMP1130'', ''ComA'', 1)\<rparr>
     ([(''COMP1130'', ''ComA'', 1), (''COMP1130'', ''ComB'', 2)], [''hide'' \<mapsto> ''1_2''])) ''COMP1130''
     = None \<and>
   dispatch changeOccurrences \<lparr>type = ''reset'', values' = (''COMP1130'', ''ComA'', 1)\<rparr>
     (dispatch changeOccurrences \<lparr>type = ''reset'', values' = (''COMP1130'', ''ComA'', 1)\<rparr>
        ([(''COMP1130'', ''ComA'', 1), (''COMP1130'', ''ComB'', 2)], [''hide'' \<mapsto> ''1_2'']))
     = dispatch changeOccurrences \<lparr>type = ''reset'', values' = (''COMP1130'', ''ComA'', 1)\<rparr>
        ([(''COMP1130'', ''ComA'', 1), (''COMP1130'', ''ComB'', 2)], [''hide'' \<mapsto> ''1_2''])"
proof -
  let ?r = "\<lparr>type = ''reset'', values' = ([] :: key)\<rparr>"
  let ?a = "\<lparr>type = ''reset'', values' = (''COMP1130'', ''ComA'', 1::nat)\<rparr>"
  have h: "type ?r = ''reset'' \<and> type ?a = ''reset'' \<and> values' ?a = (''COMP1130'', ''ComA'', 1)"
    by simp
  from h reset_twice
    [of ?r ?a "''COMP1130''" "''ComA''" 1 "[[Num 1, Num 2]]" "[''hide'' \<mapsto> ''1_2'']"
        "[(''COMP1130'', ''ComA'', 1), (''COMP1130'', ''ComB'', 2)]"]
  show ?thesis by blast
qed

text \<open>
  C1. From the empty state left by a reset, \<open>hide([1,2])\<close> and then \<open>hide([3,4])\<close>:
  the stored sequence is \<open>[[1,2],[3,4]]\<close>, but the \<open>hide\<close> parameter is joined from the
  sequence as it was before the key was appended (line 144 reads \<open>state\<close>), so the
  first dispatch unsets it and the second sets it to \<open>1_2\<close>, not to \<open>1_2,3_4\<close>, the
  join of the stored sequence.
\<close>

theorem hide_parameter_lags:
  "changeHidden [] \<lparr>type = ''hide'', values' = [Num 1, Num 2]\<rparr>
     = (Inr [[Num 1, Num 2]], [UnsetQueryParam ''hide'']) \<and>
   changeHidden [[Num 1, Num 2]] \<lparr>type = ''hide'', values' = [Num 3, Num 4]\<rparr>
     = (Inr [[Num 1, Num 2], [Num 3, Num 4]], [SetQueryParam ''hide'' (Some ''1_2'')]) \<and>
   dispatch changeHidden \<lparr>type = ''hide'', values' = [Num 3, Num 4]\<rparr>
     (dispatch changeHidden \<lparr>type = ''hide'', values' = [Num 1, Num 2]\<rparr>
       (dispatch changeHidden \<lparr>type = ''reset'', values' = []\<rparr> ([[Num 7]], [''hide'' \<mapsto> ''7''])))
     = ([[Num 1, Num 2], [Num 3, Num 4]], [''hide'' \<mapsto> ''1_2'']) \<and>
   join '','' (map (\<lambda>x. join ''_'' (map toString x)) [[Num 1, Num 2], [Num 3, Num 4]]) = ''1_2,3_4''"
  by (simp add: changeHidden_def dispatch_def toDecimal.simps digit_char_def setParam_def unsetParam_def)

text \<open>
  C2, as stated, fails when the stored sequence already holds the triple: the reset
  removes every copy of it, the old ones too.
\<close>

theorem select_reset_counterexample:
  "fst (dispatch changeOccurrences \<lparr>type = ''reset'', values' = (''COMP1130'', ''ComA'', 1)\<rparr>
     (dispatch changeOccurrences \<lparr>type = ''select'', values' = (''COMP1130'', ''ComA'', 1)\<rparr>
        ([(''COMP1130'', ''ComA'', 1)], Map.empty)))
   = [] \<and> [] \<noteq> [(''COMP1130'', ''ComA'', 1::nat)]"
  by (simp add: changeOccurrences_def dispatch_def)

text \<open>
  C2, amended. \<open>select(m, g, n)\<close> and then \<open>reset(m, g, n)\<close> leave the stored sequence
  without any triple equal to \<open>(m, g, n)\<close>: it is the sequence from before the select
  exactly when that sequence did not hold the triple. Module \<open>m\<close>'s parameter is unset
  and the rest of the query string is as before.
\<close>

theorem select_reset:
  assumes "type sel = ''select''" and "type res = ''reset''"
    and "values' sel = (m, g, n)" and "values' res = (m, g, n)"
  shows "fst (dispatch changeOccurrences res (dispatch changeOccurrences sel (state, q)))
           = filter (\<lambda>t. t \<noteq> (m, g, n)) state \<and>
         (fst (dispatch changeOccurrences res (dispatch changeOccurrences sel (state, q))) = state
            \<longleftrightarrow> (m, g, n) \<notin> set state) \<and>
         snd (dispatch changeOccurrences res (dispatch changeOccurrences sel (state, q)))
           = q(m := None)"
proof -
  have f: "(\<lambda>(m', g', oc). \<not> (m' = m \<and> g' = g \<and> oc = n)) = (\<lambda>t. t \<noteq> (m, g, n))"
    by (auto simp: fun_eq_iff)
  have s: "dispatch changeOccurrences sel (state, q)
             = (state @ [(m, g, n)], q(m \<mapsto> g @ toDecimal n))"
    using assms
    by (simp add: changeOccurrences_def dispatch_def setParam_def toDecimal_nonempty)
  have r: "dispatch changeOccurrences res (st, q')
             = (filter (\<lambda>(m', g', oc). \<not> (m' = m \<and> g' = g \<and> oc = n)) st, q'(m := None))"
    for st q'
    using assms
    by (simp add: changeOccurrences_def dispatch_def setParam_def unsetParam_def)
  have d: "dispatch changeOccurrences res (dispatch changeOccurrences sel (state, q))
             = (filter (\<lambda>t. t \<noteq> (m, g, n)) state, q(m := None))"
    unfolding s r f by simp
  have i: "filter (\<lambda>t. t \<noteq> (m, g, n)) state = state \<longleftrightarrow> (m, g, n) \<notin> set state"
    by (auto simp: filter_id_conv)
  show ?thesis by (simp only: d fst_conv snd_conv i)
qed

theorem select_reset_witness:
  "fst (dispatch changeOccurrences \<lparr>type = ''reset'', values' = (''COMP1130'', ''ComA'', 2)\<rparr>
     (dispatch changeOccurrences \<lparr>type = ''select'', values' = (''COMP1130'', ''ComA'', 2)\<rparr>
        ([(''COMP1130'', ''ComB'', 2)], [''COMP1130'' \<mapsto> ''ComB2''])))
     = [(''COMP1130'', ''ComB'', 2)] \<and>
   snd (dispatch changeOccurrences \<lparr>type = ''reset'', values' = (''COMP1130'', ''ComA'', 2)\<rparr>
     (dispatch changeOccurrences \<lparr>type = ''select'', values' = (''COMP1130'', ''ComA'', 2)\<rparr>
        ([(''COMP1130'', ''ComB'', 2)], [''COMP1130'' \<mapsto> ''ComB2'']))) ''COMP1130'' = None"
  using select_reset
    [of "\<lparr>type = ''select'', values' = (''COMP1130'', ''ComA'', 2::nat)\<rparr>"
        "\<lparr>type = ''reset'', values' = (''COMP1130'', ''ComA'', 2::nat)\<rparr>"
        "''COMP1130''" "''ComA''" 2 "[(''COMP1130'', ''ComB'', 2)]" "[''COMP1130'' \<mapsto> ''ComB2'']"]
  by simp

text \<open>
  C4. With the selected modules \<open>[A, B]\<close> and the new sequence \<open>[B, C]\<close> (three
  objects, \<open>B\<close> the same one in both), the reducer returns \<open>[B, C]\<close> as it got it and
  makes two calls: it unsets \<open>A\<close>'s parameter and sets \<open>C\<close>'s. No call names \<open>B\<close>'s
  parameter (the three modules having their own ids).
\<close>

theorem diff_AB_BC:
  assumes "distinct [a, b, c]"
  shows "selectedModulesReducer ids [a, b] [b, c]
           = ([b, c], [UnsetQueryParam (ids a), SetQueryParam (ids c) None]) \<and>
         (ids b \<noteq> ids a \<and> ids b \<noteq> ids c \<longrightarrow>
            ids b \<notin> param_of ` set (snd (selectedModulesReducer ids [a, b] [b, c])))"
  using assms by (auto simp: selectedModulesReducer_def includesRef_def)

theorem diff_AB_BC_witness:
  "selectedModulesReducer (\<lambda>r. [''COMP1100'', ''COMP1130'', ''MATH1005''] ! r) [0, 1] [1, 2]
     = ([1, 2], [UnsetQueryParam ''COMP1100'', SetQueryParam ''MATH1005'' None]) \<and>
   ''COMP1130'' \<notin> param_of ` set (snd (selectedModulesReducer
       (\<lambda>r. [''COMP1100'', ''COMP1130'', ''MATH1005''] ! r) [0, 1] [1, 2]))"
  using diff_AB_BC [of 0 1 2 "\<lambda>r. [''COMP1100'', ''COMP1130'', ''MATH1005''] ! r"]
  by simp

text \<open>
  C10, as stated, fails when the object of the current state is in the new sequence
  too: with the state \<open>[x]\<close> and the new sequence \<open>[x, y]\<close>, \<open>y\<close> another object
  with \<open>x\<close>'s id, the parameter is set once and never unset.
\<close>

theorem same_id_counterexample:
  "selectedModulesReducer (\<lambda>r. ''COMP1130'') [0] [0, 1]
     = ([0, 1], [SetQueryParam ''COMP1130'' None])"
  by (simp add: selectedModulesReducer_def includesRef_def)

lemma unset_calls:
  "set (concat (map (\<lambda>m. if \<not> includesRef updated m then [UnsetQueryParam (ids m)] else []) state))
     = (\<lambda>m. UnsetQueryParam (ids m)) ` (set state - set updated)"
  by (auto simp: includesRef_def)

lemma set_calls:
  "set (concat (map (\<lambda>m. if \<not> includesRef state m then [SetQueryParam (ids m) None] else []) updated))
     = (\<lambda>m. SetQueryParam (ids m) None) ` (set updated - set state)"
  by (auto simp: includesRef_def)

lemma replaced_object:
  assumes "x \<in> set state" and "y \<in> set updated" and "ids x = ids y"
    and "x \<notin> set updated" and "y \<notin> set state"
  shows "\<exists>pre mid post. snd (selectedModulesReducer ids state updated)
           = pre @ [UnsetQueryParam (ids x)] @ mid @ [SetQueryParam (ids x) None] @ post"
proof -
  let ?A = "concat (map (\<lambda>m. if \<not> includesRef updated m then [UnsetQueryParam (ids m)] else []) state)"
  let ?B = "concat (map (\<lambda>m. if \<not> includesRef state m then [SetQueryParam (ids m) None] else []) updated)"
  have "UnsetQueryParam (ids x) \<in> set ?A"
    unfolding unset_calls using assms by blast
  then obtain pre m1 where A: "?A = pre @ UnsetQueryParam (ids x) # m1"
    by (meson split_list)
  have "SetQueryParam (ids x) None \<in> set ?B"
    unfolding set_calls using assms by force
  then obtain m2 post where B: "?B = m2 @ SetQueryParam (ids x) None # post"
    by (meson split_list)
  have "snd (selectedModulesReducer ids state updated) = ?A @ ?B"
    by (simp add: selectedModulesReducer_def)
  also have "\<dots> = pre @ [UnsetQueryParam (ids x)] @ (m1 @ m2) @ [SetQueryParam (ids x) None] @ post"
    by (simp only: A B) simp
  finally show ?thesis by blast
qed

lemma untouched_only_same:
  assumes "x \<in> set state"
    and "ids x \<notin> param_of ` set (snd (selectedModulesReducer ids state updated))"
  shows "x \<in> set updated"
proof (rule ccontr)
  assume "x \<notin> set updated"
  with assms(1) have "UnsetQueryParam (ids x) \<in> set (snd (selectedModulesReducer ids state updated))"
    by (auto simp: selectedModulesReducer_def includesRef_def)
  then have "param_of (UnsetQueryParam (ids x))
      \<in> param_of ` set (snd (selectedModulesReducer ids state updated))"
    by (rule imageI)
  with assms(2) show False by simp
qed

text \<open>
  C10, amended. Membership is by reference. When an object \<open>x\<close> of the current state is
  not itself in the new sequence, and the new sequence has an object \<open>y\<close> with the same
  id that is not itself in the current state, the reducer unsets that id's parameter
  and later sets it again. And when no call names the id of an object \<open>x\<close> of the
  current state, that very object is in the new sequence too.
\<close>

theorem membership_by_reference:
  "(x \<in> set state \<and> y \<in> set updated \<and> ids x = ids y \<and> x \<notin> set updated \<and> y \<notin> set state \<longrightarrow>
      (\<exists>pre mid post. snd (selectedModulesReducer ids state updated)
         = pre @ [UnsetQueryParam (ids x)] @ mid @ [SetQueryParam (ids x) None] @ post)) \<and>
   (x \<in> set state \<and>
    ids x \<notin> param_of ` set (snd (selectedModulesReducer ids state updated)) \<longrightarrow>
      x \<in> set updated)"
  using replaced_object [of x state y updated ids] untouched_only_same [of x state ids updated]
  by blast

theorem membership_by_reference_witness:
  "\<exists>pre mid post. snd (selectedModulesReducer (\<lambda>r. ''COMP1130'') [0] [1])
     = pre @ [UnsetQueryParam ''COMP1130''] @ mid @ [SetQueryParam ''COMP1130'' None] @ post"
  using membership_by_reference [of 0 "[0]" 1 "[1]" "\<lambda>r. ''COMP1130''"]
  by simp



























lemma tagAt_0: "tagAt (a # b # c # rest) 0 = (a = CHR ''_'' \<and> isUpper b \<and> isDigit19 c)"
  by (simp add: tagAt_def)

lemma tagAt_Suc: "tagAt (a # t) (Suc i) = tagAt t i"
  by (simp add: tagAt_def)

lemma replaceTag_none: "(\<forall>i. \<not> tagAt t i) \<Longrightarrow> replaceTag t = t"
proof (induction t rule: replaceTag.induct)
  case (1 a b c rest)
  from "1.prems" have n0: "\<not> tagAt (a # b # c # rest) 0" by blast
  then have n: "\<not> (a = CHR ''_'' \<and> isUpper b \<and> isDigit19 c)" unfolding tagAt_0 .
  from "1.prems" have "\<forall>i. \<not> tagAt (a # b # c # rest) (Suc i)" by blast
  then have "\<forall>i. \<not> tagAt (b # c # rest) i" unfolding tagAt_Suc .
  from "1.IH" [OF n this] n show ?case by simp
qed simp_all

lemma replaceTag_first:
  "tagAt t i \<Longrightarrow> (\<forall>j<i. \<not> tagAt t j) \<Longrightarrow> replaceTag t = take i t @ drop (i + 3) t"
proof (induction t arbitrary: i rule: replaceTag.induct)
  case (1 a b c rest)
  show ?case
  proof (cases "a = CHR ''_'' \<and> isUpper b \<and> isDigit19 c")
    case True
    then have "tagAt (a # b # c # rest) 0" unfolding tagAt_0 .
    with "1.prems"(2) have "i = 0" by (cases i) auto
    with True show ?thesis by simp
  next
    case False
    then have "\<not> tagAt (a # b # c # rest) 0" unfolding tagAt_0 .
    with "1.prems"(1) obtain i' where i: "i = Suc i'" by (cases i) auto
    from "1.prems"(1) have t: "tagAt (b # c # rest) i'" unfolding i tagAt_Suc .
    have "\<forall>j<i'. \<not> tagAt (a # b # c # rest) (Suc j)" using "1.prems"(2) unfolding i by auto
    then have "\<forall>j<i'. \<not> tagAt (b # c # rest) j" unfolding tagAt_Suc .
    from "1.IH" [OF False t this]
    have ih: "replaceTag (b # c # rest) = take i' (b # c # rest) @ drop (i' + 3) (b # c # rest)" .
    have "replaceTag (a # b # c # rest) = a # replaceTag (b # c # rest)"
      unfolding replaceTag.simps(1) by (rule if_not_P) (rule False)
    also have "\<dots> = a # (take i' (b # c # rest) @ drop (i' + 3) (b # c # rest))"
      by (simp only: ih)
    also have "\<dots> = take (Suc i') (a # b # c # rest) @ drop (Suc (i' + 3)) (a # b # c # rest)"
      by (simp only: take_Suc_Cons drop_Suc_Cons append_Cons)
    finally show ?thesis unfolding i by simp
  qed
qed (simp_all add: tagAt_def)

lemma processModule_Text:
  assumes "raw ''title'' = Some (Text title)"
  shows "processModule raw =
    Inr ((\<lambda>k. if k \<in> {''classes'', ''id'', ''title''} then None else raw k)
           (''title'' \<mapsto> Text (replaceTag title)))"
  using assms by (simp add: processModule_def)

text \<open>
  C5, amended. For an entry whose title is a string, the record has the title with
  the leftmost \<^verbatim>\<open>_[A-Z][1-9]\<close> removed, wherever it stands (an underscore, a capital
  letter \<open>A\<close> to \<open>Z\<close>, a digit \<open>1\<close> to \<open>9\<close>), and unchanged when there is none; it has no
  \<open>classes\<close> and no \<open>id\<close> field; every other field is as in the entry.
\<close>

theorem processModule_fields:
  "(raw ''title'' = Some (Text title) \<longrightarrow>
      (\<exists>r. processModule raw = Inr r \<and> r ''title'' = Some (Text (replaceTag title)) \<and>
           r ''classes'' = None \<and> r ''id'' = None \<and>
           (\<forall>k. k \<notin> {''classes'', ''id'', ''title''} \<longrightarrow> r k = raw k))) \<and>
   ((\<forall>j. \<not> tagAt title j) \<longrightarrow> replaceTag title = title) \<and>
   (tagAt title i \<and> (\<forall>j<i. \<not> tagAt title j) \<longrightarrow>
      replaceTag title = take i title @ drop (i + 3) title)"
proof (intro conjI impI)
  assume a: "raw ''title'' = Some (Text title)"
  show "\<exists>r. processModule raw = Inr r \<and> r ''title'' = Some (Text (replaceTag title)) \<and>
           r ''classes'' = None \<and> r ''id'' = None \<and>
           (\<forall>k. k \<notin> {''classes'', ''id'', ''title''} \<longrightarrow> r k = raw k)"
    using processModule_Text [of raw title] a by simp
next
  assume "\<forall>j. \<not> tagAt title j"
  then show "replaceTag title = title" by (rule replaceTag_none)
next
  assume "tagAt title i \<and> (\<forall>j<i. \<not> tagAt title j)"
  then show "replaceTag title = take i title @ drop (i + 3) title"
    using replaceTag_first by blast
qed


theorem processModule_fields_witness:
  "(\<exists>r. processModule [''title'' \<mapsto> Text ''COMP1130_S1 Programming'', ''dates'' \<mapsto> Other (7::nat),
                          ''classes'' \<mapsto> Other 9] = Inr r \<and>
        r ''title'' = Some (Text (replaceTag ''COMP1130_S1 Programming'')) \<and>
        r ''classes'' = None \<and> r ''id'' = None \<and> r ''dates'' = Some (Other 7)) \<and>
   replaceTag ''COMP1130_S1 Programming'' = ''COMP1130 Programming''"
proof -
  let ?raw = "[''title'' \<mapsto> Text ''COMP1130_S1 Programming'', ''dates'' \<mapsto> Other (7::nat),
               ''classes'' \<mapsto> Other 9]"
  let ?t = "''COMP1130_S1 Programming''"
  have t: "?raw ''title'' = Some (Text ?t)" by simp
  have a: "tagAt ?t 8" by (simp add: tagAt_def isUpper_def isDigit19_def)
  have n: "\<forall>j<8. \<not> tagAt ?t j"
    by (simp add: tagAt_def isUpper_def isDigit19_def eval_nat_numeral less_Suc_eq)
  from processModule_fields [of ?raw ?t 8] t a n
  have 1: "\<exists>r. processModule ?raw = Inr r \<and> r ''title'' = Some (Text (replaceTag ?t)) \<and>
           r ''classes'' = None \<and> r ''id'' = None \<and>
           (\<forall>k. k \<notin> {''classes'', ''id'', ''title''} \<longrightarrow> r k = ?raw k)"
    and 2: "replaceTag ?t = take 8 ?t @ drop (8 + 3) ?t"
    by blast+
  from 1 obtain r where r: "processModule ?raw = Inr r" "r ''title'' = Some (Text (replaceTag ?t))"
    "r ''classes'' = None" "r ''id'' = None"
    and k: "\<forall>k. k \<notin> {''classes'', ''id'', ''title''} \<longrightarrow> r k = ?raw k" by blast
  from k have "r ''dates'' = ?raw ''dates''" by simp
  then have d: "r ''dates'' = Some (Other 7)" by simp
  from 2 have "replaceTag ?t = ''COMP1130 Programming''" by simp
  with r d show ?thesis by blast
qed

text \<open>
  C5, as stated, fails in three ways. The tag of \<open>COMP1130_S1 Programming\<close> is not at
  the end and is removed all the same, and the entry's \<open>classes\<close> and \<open>id\<close> are not in
  the record. A trailing tag with a small letter, or with the digit \<open>0\<close>, stays.
\<close>

theorem processModule_counterexample:
  "processModule [''title'' \<mapsto> Text ''COMP1130_S1 Programming'', ''dates'' \<mapsto> Other (7::nat),
                  ''classes'' \<mapsto> Other 9, ''id'' \<mapsto> Text ''COMP1130'']
     = Inr [''title'' \<mapsto> Text ''COMP1130 Programming'', ''dates'' \<mapsto> Other 7] \<and>
   stripTrailingTag ''COMP1130_S1 Programming'' = ''COMP1130_S1 Programming'' \<and>
   replaceTag ''Algebra_b1'' = ''Algebra_b1'' \<and> stripTrailingTag ''Algebra_b1'' = ''Algebra'' \<and>
   replaceTag ''Algebra_B0'' = ''Algebra_B0'' \<and> stripTrailingTag ''Algebra_B0'' = ''Algebra''"
  by (simp add: processModule_def stripTrailingTag_def isLetter_def isUpper_def isDigit_def
      isDigit19_def fun_eq_iff)

lemma splitStr_nonempty: "splitStr sep s \<noteq> []"
  by (induction s) (auto split: list.splits)

lemma hd_splitStr: "hd (splitStr sep s) = takeWhile (\<lambda>c. c \<noteq> sep) s"
  using splitStr_nonempty [of sep] by (induction s) (auto split: list.splits)

lemma reduceModules_ok:
  "\<forall>(k, e)\<in>set ds. \<exists>t. e ''title'' = Some (Text t) \<Longrightarrow> \<exists>cat. reduceModules acc ds = Inr cat"
proof (induction ds arbitrary: acc)
  case Nil
  show ?case by simp
next
  case (Cons x ds)
  obtain k e where x: "x = (k, e)" by (cases x)
  from Cons.prems obtain t where t: "e ''title'' = Some (Text t)" unfolding x by auto
  from Cons.prems have "\<forall>(k, e)\<in>set ds. \<exists>t. e ''title'' = Some (Text t)" by simp
  from Cons.IH [OF this] show ?case unfolding x by (simp add: processModule_def t)
qed

lemma reduceModules_append:
  "reduceModules acc (xs @ ys) =
     (case reduceModules acc xs of Inl e \<Rightarrow> Inl e | Inr a \<Rightarrow> reduceModules a ys)"
  by (induction xs arbitrary: acc) (auto split: sum.splits)

lemma reduceModules_keep:
  "reduceModules acc ds = Inr cat \<Longrightarrow> \<forall>(k, e)\<in>set ds. hd (splitStr CHR ''_'' k) \<noteq> c \<Longrightarrow>
     cat c = acc c"
proof (induction ds arbitrary: acc)
  case Nil
  then show ?case by simp
next
  case (Cons x ds)
  obtain k e where x: "x = (k, e)" by (cases x)
  from Cons.prems(1) obtain r where r: "processModule e = Inr r"
    and s: "reduceModules (acc(hd (splitStr CHR ''_'' k) \<mapsto> r)) ds = Inr cat"
    unfolding x by (auto split: sum.splits)
  from Cons.prems(2) have n: "hd (splitStr CHR ''_'' k) \<noteq> c"
    and rest: "\<forall>(k, e)\<in>set ds. hd (splitStr CHR ''_'' k) \<noteq> c" unfolding x by auto
  from Cons.IH [OF s rest] n show ?case by simp
qed

text \<open>
  C8, as stated, fails on a dataset with an entry that has no title: the keys of both
  entries have the code \<open>A\<close>, and no catalogue is built, \<^verbatim>\<open>title.replace\<close> throws.
\<close>

theorem last_entry_counterexample:
  "modulesOf [(''A_S1'', [''title'' \<mapsto> Text ''A_S1 Algebra'']), (''A_S2'', [''dates'' \<mapsto> Other (2::nat)])]
     = Inl TypeError"
  by (simp add: modulesOf_def processModule_def)

text \<open>
  C8, amended. In a dataset whose entries all have a string title, the catalogue is
  built with no error, and it maps a module code (the key up to its first underscore)
  to the record of the last entry whose key has that code: a later entry replaces what
  an earlier one left.
\<close>

theorem last_entry_wins:
  assumes "\<forall>(k, e)\<in>set timetableData. \<exists>t. e ''title'' = Some (Text t)"
    and "timetableData = pre @ (key, module) # post"
    and "\<forall>(k, e)\<in>set post. hd (splitStr CHR ''_'' k) \<noteq> hd (splitStr CHR ''_'' key)"
  shows "\<exists>cat r. modulesOf timetableData = Inr cat \<and> processModule module = Inr r \<and>
           cat (hd (splitStr CHR ''_'' key)) = Some r \<and>
           hd (splitStr CHR ''_'' key) = takeWhile (\<lambda>c. c \<noteq> CHR ''_'') key"
proof -
  from reduceModules_ok [OF assms(1)] obtain cat where c: "reduceModules Map.empty timetableData = Inr cat"
    by blast
  from c obtain a where a: "reduceModules Map.empty pre = Inr a"
    and b: "reduceModules a ((key, module) # post) = Inr cat"
    unfolding assms(2) reduceModules_append by (auto split: sum.splits)
  from b obtain r where r: "processModule module = Inr r"
    and s: "reduceModules (a(hd (splitStr CHR ''_'' key) \<mapsto> r)) post = Inr cat"
    by (auto split: sum.splits)
  from reduceModules_keep [OF s assms(3)] have "cat (hd (splitStr CHR ''_'' key)) = Some r" by simp
  with c r hd_splitStr show ?thesis unfolding modulesOf_def by blast
qed

theorem last_entry_wins_witness:
  "\<exists>cat r. modulesOf [(''COMP1130_S1'', [''title'' \<mapsto> Text ''COMP1130_S1 Programming'', ''dates'' \<mapsto> Other (1::nat)]),
                      (''COMP1130_S2'', [''title'' \<mapsto> Text ''COMP1130_S2 Programming'', ''dates'' \<mapsto> Other 2])]
             = Inr cat \<and>
           cat ''COMP1130'' = Some r \<and> r ''dates'' = Some (Other 2)"
proof -
  let ?e1 = "[''title'' \<mapsto> Text ''COMP1130_S1 Programming'', ''dates'' \<mapsto> Other (1::nat)]"
  let ?e2 = "[''title'' \<mapsto> Text ''COMP1130_S2 Programming'', ''dates'' \<mapsto> Other (2::nat)]"
  let ?ds = "[(''COMP1130_S1'', ?e1), (''COMP1130_S2'', ?e2)]"
  have 1: "\<forall>(k, e)\<in>set ?ds. \<exists>t. e ''title'' = Some (Text t)" by simp
  have 2: "?ds = [(''COMP1130_S1'', ?e1)] @ (''COMP1130_S2'', ?e2) # []" by simp
  have 3: "\<forall>(k, e)\<in>set ([] :: (string \<times> nat obj) list).
             hd (splitStr CHR ''_'' k) \<noteq> hd (splitStr CHR ''_'' ''COMP1130_S2'')" by simp
  from last_entry_wins [OF 1 2 3] obtain cat r where c: "modulesOf ?ds = Inr cat"
    and r: "processModule ?e2 = Inr r" and k: "cat (hd (splitStr CHR ''_'' ''COMP1130_S2'')) = Some r"
    by blast
  from k have k': "cat ''COMP1130'' = Some r" by simp
  from r have "r ''dates'' = Some (Other 2)" by (auto simp: processModule_def)
  with c k' show ?thesis by blast
qed


end
